theory Spec2Isabelle
  imports Main "HOL-Library.Sublist" "HOL-Library.Word"
begin

section \<open>Configuration (app.py, lines 11-21)\<close>

definition ALLOWED_TRACKS :: "string set" where
  "ALLOWED_TRACKS = {''AP'', ''RP'', ''Common'', ''LI'', ''ES''}"

definition ALLOWED_STATUS :: "string set" where
  "ALLOWED_STATUS = {''Open'', ''Fixed'', ''Deployed'', ''Closed''}"

definition ALLOWED_EXTENSIONS :: "string set" where
  "ALLOWED_EXTENSIONS = {''png'', ''jpg'', ''jpeg'', ''gif'', ''webp'', ''bmp'', ''pdf''}"

definition MAX_ATTACHMENTS :: nat where
  "MAX_ATTACHMENTS = 5"

section \<open>Python strings\<close>

text \<open>
  A Python \<open>str\<close> is a sequence of code points. The model uses \<open>string\<close> with one
  \<open>char\<close> per code point, which covers the code points below 256; \<open>len\<close> is
  \<open>length\<close>.
\<close>

definition isspace :: "char \<Rightarrow> bool" where
  \<comment> \<open>the code points below 256 for which \<open>str.isspace\<close> holds\<close>
  "isspace c = (of_char c \<in> {9, 10, 11, 12, 13, 28, 29, 30, 31, 32, 133, 160 :: nat})"

definition strip :: "string \<Rightarrow> string" where
  \<comment> \<open>\<open>s.strip()\<close>\<close>
  "strip s = rev (dropWhile isspace (rev (dropWhile isspace s)))"

definition lower_char :: "char \<Rightarrow> char" where
  "lower_char c =
     (let n = (of_char c :: nat)
      in if (65 \<le> n \<and> n \<le> 90) \<or> (192 \<le> n \<and> n \<le> 222 \<and> n \<noteq> 215)
         then char_of (n + 32) else c)"

definition lower :: "string \<Rightarrow> string" where
  \<comment> \<open>\<open>s.lower()\<close>\<close>
  "lower s = map lower_char s"

fun split_sep :: "char \<Rightarrow> string \<Rightarrow> string list" where
  \<comment> \<open>\<open>s.split(sep)\<close> for a one-character separator: never the empty list\<close>
  "split_sep sep [] = [[]]"
| "split_sep sep (c # cs) =
     (if c = sep then [] # split_sep sep cs
      else (case split_sep sep cs of
              [] \<Rightarrow> [[c]]
            | w # ws \<Rightarrow> (c # w) # ws))"

fun join_sep :: "string \<Rightarrow> string list \<Rightarrow> string" where
  \<comment> \<open>\<open>sep.join(parts)\<close>\<close>
  "join_sep sep [] = []"
| "join_sep sep [p] = p"
| "join_sep sep (p # q # ps) = p @ sep @ join_sep sep (q # ps)"

definition startswith :: "string \<Rightarrow> string \<Rightarrow> bool" where
  "startswith s p = (take (length p) s = p)"

definition py_or :: "string option \<Rightarrow> string \<Rightarrow> string" where
  \<comment> \<open>\<open>v or d\<close> for a value that is \<open>None\<close> or a \<open>str\<close>: \<open>None\<close> and \<open>""\<close> are falsy\<close>
  "py_or v d = (case v of None \<Rightarrow> d | Some s \<Rightarrow> if s = [] then d else s)"

section \<open>The filesystem behind \<open>os\<close> and \<open>os.path\<close>\<close>

text \<open>
  A POSIX file tree without symbolic links. A location is the list of names from the
  root; \<open>files\<close> maps the locations of regular files to their contents, \<open>dirs\<close> is the
  set of directories, \<open>cwd\<close> the working directory of the process.
\<close>

type_synonym loc = "string list"

record fsys =
  files :: "loc \<rightharpoonup> string"
  dirs :: "loc set"
  cwd :: loc

datatype oserror = FileNotFoundError | NotADirectoryError | IsADirectoryError

fun walk :: "fsys \<Rightarrow> loc \<Rightarrow> string list \<Rightarrow> oserror + loc" where
  \<comment> \<open>path resolution, one component at a time\<close>
  "walk fs cur [] = Inr cur"
| "walk fs cur (s # ss) =
     (if files fs cur \<noteq> None then Inl NotADirectoryError
      else if cur \<notin> dirs fs then Inl FileNotFoundError
      else if s = [] \<or> s = ''.'' then walk fs cur ss
      else if s = ''..'' then walk fs (butlast cur) ss
      else walk fs (cur @ [s]) ss)"

definition resolve :: "fsys \<Rightarrow> string \<Rightarrow> oserror + loc" where
  "resolve fs p =
     (if p = [] then Inl FileNotFoundError
      else walk fs (if hd p = CHR ''/'' then [] else cwd fs) (split_sep CHR ''/'' p))"

definition os_path_join :: "string \<Rightarrow> string \<Rightarrow> string" where
  \<comment> \<open>\<open>os.path.join(a, b)\<close>\<close>
  "os_path_join a b =
     (if startswith b ''/'' then b
      else if a = [] \<or> last a = CHR ''/'' then a @ b
      else a @ ''/'' @ b)"

definition os_path_isfile :: "fsys \<Rightarrow> string \<Rightarrow> bool" where
  \<comment> \<open>\<open>os.path.isfile(p)\<close>: every error of the lookup is \<open>False\<close>\<close>
  "os_path_isfile fs p =
     (case resolve fs p of Inl _ \<Rightarrow> False | Inr l \<Rightarrow> files fs l \<noteq> None)"

definition os_remove :: "fsys \<Rightarrow> string \<Rightarrow> oserror + fsys" where
  \<comment> \<open>\<open>os.remove(p)\<close>\<close>
  "os_remove fs p =
     (case resolve fs p of
        Inl err \<Rightarrow> Inl err
      | Inr l \<Rightarrow>
          if files fs l \<noteq> None then Inr (fs\<lparr>files := (files fs)(l := None)\<rparr>)
          else if l \<in> dirs fs then Inl IsADirectoryError
          else Inl FileNotFoundError)"

definition write_file :: "fsys \<Rightarrow> string \<Rightarrow> string \<Rightarrow> oserror + fsys" where
  \<comment> \<open>\<open>open(p, "wb")\<close> and the write of the whole content, as \<open>FileStorage.save\<close> does\<close>
  "write_file fs p data =
     (case resolve fs p of
        Inl err \<Rightarrow> Inl err
      | Inr l \<Rightarrow>
          if l \<in> dirs fs then Inl IsADirectoryError
          else Inr (fs\<lparr>files := (files fs)(l \<mapsto> data)\<rparr>))"

section \<open>The data model (app.py, lines 26-53)\<close>

text \<open>
  The \<open>attachments\<close> column holds \<open>json.dumps\<close> of a list of filenames and every reader
  applies \<open>json.loads\<close> to it; the model keeps the list. \<open>created_at\<close> is the text
  \<open>isoformat()\<close> gives for the instant. Every handler stores a \<open>str\<close> in the text
  columns, so they are strings here.
\<close>

record issue =
  id' :: nat
  track :: string
  summary :: string
  description :: string
  attachments :: "string list"
  raised_by :: string
  assignee :: string
  status :: string
  scenario_id :: string
  step_no :: string
  created_at :: string

text \<open>
  A JSON value, as \<open>json.loads\<close> and \<open>jsonify\<close> have it: \<open>None\<close>, a \<open>bool\<close>, an \<open>int\<close>, a
  \<open>float\<close> (the 64 bits of the IEEE double), a \<open>str\<close>, a \<open>list\<close> or a \<open>dict\<close>.
\<close>

datatype json =
    JNull
  | JBool bool
  | JInt int
  | JFloat "64 word"
  | JStr string
  | JList "json list"
  | JObj "(string \<times> json) list"

definition to_dict :: "issue \<Rightarrow> (string \<times> json) list" where
  "to_dict i =
     [(''id'', JInt (int (id' i))),
      (''track'', JStr (track i)),
      (''summary'', JStr (summary i)),
      (''description'', JStr (description i)),
      (''attachments'', JList (map JStr (attachments i))),
      (''raised_by'', JStr (raised_by i)),
      (''assignee'', JStr (assignee i)),
      (''status'', JStr (status i)),
      (''scenario_id'', JStr (scenario_id i)),
      (''step_no'', JStr (step_no i)),
      (''created_at'', JStr (created_at i @ ''Z''))]"

section \<open>Requests, responses and the state of the service\<close>

text \<open>
  The fields of \<open>request.form\<close>, which \<open>add_issue\<close> reads with \<open>data.get\<close>: a field is absent
  or present with a \<open>str\<close> (\<open>Some None\<close> reads as absent).
\<close>

type_synonym fields = "string \<rightharpoonup> string option"

text \<open>
  The mapping \<open>update_issue\<close> gets from \<open>request.form or request.json\<close>: the fields of the
  form, each a \<open>JStr\<close>, or the object of a JSON body, whose values are of any JSON type.
\<close>

type_synonym json_fields = "string \<rightharpoonup> json"

datatype pyerror = TypeError | AttributeError

fun truthy :: "json \<Rightarrow> bool" where
  \<comment> \<open>\<open>bool(v)\<close>\<close>
  "truthy JNull = False"
| "truthy (JBool b) = b"
| "truthy (JInt n) = (n \<noteq> 0)"
| "truthy (JFloat w) = (take_bit 63 w \<noteq> 0)"
| "truthy (JStr s) = (s \<noteq> [])"
| "truthy (JList xs) = (xs \<noteq> [])"
| "truthy (JObj kvs) = (kvs \<noteq> [])"

fun hashable :: "json \<Rightarrow> bool" where
  "hashable (JList xs) = False"
| "hashable (JObj kvs) = False"
| "hashable v = True"


definition not_in_strs :: "json \<Rightarrow> string set \<Rightarrow> pyerror + bool" where
  \<comment> \<open>\<open>v not in S\<close> for a set \<open>S\<close> of \<open>str\<close>: hashing a \<open>list\<close> or a \<open>dict\<close> raises\<close>
  "not_in_strs v S =
     (if \<not> hashable v then Inl TypeError
      else Inr (case v of JStr s \<Rightarrow> s \<notin> S | _ \<Rightarrow> True))"

definition or_empty_strip :: "json \<Rightarrow> pyerror + string" where
  \<comment> \<open>\<open>(v or "").strip()\<close>: only a \<open>str\<close> has \<open>strip\<close>\<close>
  "or_empty_strip v =
     (if truthy v then (case v of JStr s \<Rightarrow> Inr (strip s) | _ \<Rightarrow> Inl AttributeError)
      else Inr (strip []))"

definition get_field :: "fields \<Rightarrow> string \<Rightarrow> string option" where
  \<comment> \<open>\<open>data.get(k)\<close>\<close>
  "get_field data k = (case data k of None \<Rightarrow> None | Some v \<Rightarrow> v)"

record upload =
  filename :: string
  content :: string

text \<open>
  What a request takes from outside the program: the directory of \<open>app.py\<close>
  (\<open>os.path.dirname(__file__)\<close>), Flask's \<open>app.root_path\<close>, Werkzeug's
  \<open>secure_filename\<close>, the values \<open>uuid.uuid4()\<close> returns during the request
  (\<open>uuid4 k\<close> is the one of call \<open>k\<close>) and the clock.
\<close>

record env =
  here :: string
  root_path :: string
  secure_filename :: "string \<Rightarrow> string"
  uuid4 :: "nat \<Rightarrow> 128 word"
  utcnow :: string

definition UPLOAD_FOLDER :: "env \<Rightarrow> string" where
  "UPLOAD_FOLDER e = os_path_join (here e) ''uploads''"

record state =
  table :: "issue list"
  disk :: fsys

type_synonym cell = "(nat \<times> nat) \<times> json"

datatype body =
    Json json
  | FileContent string
  | Workbook "(string \<times> cell list) list"
  | NoBody

type_synonym response = "nat \<times> body"

definition error_json :: "string \<Rightarrow> body" where
  "error_json msg = Json (JObj [(''error'', JStr msg)])"

definition NotFound :: response where
  \<comment> \<open>\<open>abort(404)\<close>, \<open>get_or_404\<close>, Werkzeug's \<open>NotFound\<close>\<close>
  "NotFound = (404, NoBody)"

definition ServerError :: response where
  \<comment> \<open>an exception no handler catches\<close>
  "ServerError = (500, NoBody)"

definition query_get :: "issue list \<Rightarrow> nat \<Rightarrow> issue option" where
  "query_get rows n = find (\<lambda>i. id' i = n) rows"

definition next_id :: "issue list \<Rightarrow> nat" where
  \<comment> \<open>SQLite's \<open>INTEGER PRIMARY KEY\<close>: one more than the largest id in the table\<close>
  "next_id rows = Suc (fold max (map id' rows) 0)"

definition order_by_id_desc :: "issue list \<Rightarrow> issue list" where
  "order_by_id_desc rows = rev (sort_key id' rows)"

section \<open>Helpers (app.py, lines 58-72)\<close>

definition allowed_file :: "string \<Rightarrow> bool" where
  "allowed_file name =
     (if CHR ''.'' \<notin> set name then False
      else let ext = lower (rev (takeWhile (\<lambda>c. c \<noteq> CHR ''.'') (rev name)))
           in ext \<in> ALLOWED_EXTENSIONS)"

definition accepted :: "upload \<Rightarrow> bool" where
  \<comment> \<open>\<open>f and f.filename and allowed_file(f.filename)\<close>; a \<open>FileStorage\<close> is truthy when
     its filename is not empty\<close>
  "accepted f = (filename f \<noteq> [] \<and> allowed_file (filename f))"

definition hexdigit :: "nat \<Rightarrow> char" where
  "hexdigit n = ''0123456789abcdef'' ! (n mod 16)"

fun hex_digits :: "nat \<Rightarrow> nat \<Rightarrow> string" where
  \<comment> \<open>the last \<open>k\<close> hexadecimal digits of \<open>n\<close>, most significant first\<close>
  "hex_digits 0 n = []"
| "hex_digits (Suc k) n = hex_digits k (n div 16) @ [hexdigit n]"

definition hex :: "128 word \<Rightarrow> string" where
  \<comment> \<open>\<open>UUID.hex\<close>: the 32 hexadecimal digits of the 128-bit value\<close>
  "hex u = hex_digits 32 (unat u)"

definition unique_name :: "env \<Rightarrow> nat \<Rightarrow> upload \<Rightarrow> string" where
  "unique_name e k f = hex (uuid4 e k) @ ''_'' @ secure_filename e (filename f)"

fun save_each :: "env \<Rightarrow> nat \<Rightarrow> string list \<Rightarrow> upload list \<Rightarrow> fsys \<Rightarrow> (oserror + string list) \<times> fsys" where
  \<comment> \<open>the loop of \<open>save_attachments\<close>: \<open>k\<close> counts the calls of \<open>uuid4\<close>, \<open>saved\<close> is
     the list built so far; an error of \<open>f.save\<close> leaves the files written before it\<close>
  "save_each e k saved [] fs = (Inr saved, fs)"
| "save_each e k saved (f # rest) fs =
     (if accepted f then
        (let unique = unique_name e k f
         in case write_file fs (os_path_join (UPLOAD_FOLDER e) unique) (content f) of
              Inl err \<Rightarrow> (Inl err, fs)
            | Inr fs' \<Rightarrow> save_each e (Suc k) (saved @ [unique]) rest fs')
      else save_each e k saved rest fs)"

definition save_attachments :: "env \<Rightarrow> upload list \<Rightarrow> fsys \<Rightarrow> (oserror + string list) \<times> fsys" where
  "save_attachments e fls fs = save_each e 0 [] (take MAX_ATTACHMENTS fls) fs"

section \<open>Routes (app.py, lines 74-193)\<close>

definition get_issues :: "state \<Rightarrow> response" where
  "get_issues s = (200, Json (JList (map (JObj \<circ> to_dict) (order_by_id_desc (table s)))))"

definition add_issue :: "env \<Rightarrow> fields \<Rightarrow> upload list \<Rightarrow> state \<Rightarrow> response \<times> state" where
  \<comment> \<open>the message of the summary check has the sign U+2264 in the source, written \<open><=\<close> here\<close>
  "add_issue e data fls s =
     (let track = strip (py_or (get_field data ''track'') []);
          status = strip (py_or (get_field data ''status'') ''Open'');
          summary = strip (py_or (get_field data ''summary'') []);
          description = strip (py_or (get_field data ''description'') []);
          raised_by = strip (py_or (get_field data ''raised_by'') []);
          assignee = strip (py_or (get_field data ''assignee'') []);
          scenario_id = strip (py_or (get_field data ''scenario_id'') []);
          step_no = strip (py_or (get_field data ''step_no'') [])
      in if track \<notin> ALLOWED_TRACKS then ((400, error_json ''Invalid track''), s)
         else if status \<notin> ALLOWED_STATUS then ((400, error_json ''Invalid status''), s)
         else if summary = [] \<or> length summary > 250
           then ((400, error_json ''Summary is required and must be <= 250 chars''), s)
         else if length fls > MAX_ATTACHMENTS
           then ((400, error_json ''Max 5 attachments allowed''), s)
         else
           (case save_attachments e fls (disk s) of
              (Inl err, fs') \<Rightarrow> (ServerError, s\<lparr>disk := fs'\<rparr>)
            | (Inr filenames, fs') \<Rightarrow>
                (let issue = \<lparr>id' = next_id (table s), track = track, summary = summary,
                               description = description, attachments = filenames,
                               raised_by = raised_by, assignee = assignee, status = status,
                               scenario_id = scenario_id, step_no = step_no,
                               created_at = utcnow e\<rparr>
                 in ((201, Json (JObj (to_dict issue))),
                     \<lparr>table = table s @ [issue], disk = fs'\<rparr>))))"

definition UPDATE_FIELDS :: "string list" where
  "UPDATE_FIELDS = [''track'', ''summary'', ''description'', ''raised_by'', ''assignee'',
                    ''status'', ''scenario_id'', ''step_no'']"

definition setattr :: "issue \<Rightarrow> string \<Rightarrow> string \<Rightarrow> issue" where
  \<comment> \<open>\<open>setattr(issue, field, v)\<close> for the column names the loop ranges over\<close>
  "setattr i field v =
     (if field = ''track'' then i\<lparr>track := v\<rparr>
      else if field = ''summary'' then i\<lparr>summary := v\<rparr>
      else if field = ''description'' then i\<lparr>description := v\<rparr>
      else if field = ''raised_by'' then i\<lparr>raised_by := v\<rparr>
      else if field = ''assignee'' then i\<lparr>assignee := v\<rparr>
      else if field = ''status'' then i\<lparr>status := v\<rparr>
      else if field = ''scenario_id'' then i\<lparr>scenario_id := v\<rparr>
      else if field = ''step_no'' then i\<lparr>step_no := v\<rparr>
      else i)"

definition getattr :: "issue \<Rightarrow> string \<Rightarrow> string" where
  "getattr i field =
     (if field = ''track'' then track i
      else if field = ''summary'' then summary i
      else if field = ''description'' then description i
      else if field = ''raised_by'' then raised_by i
      else if field = ''assignee'' then assignee i
      else if field = ''status'' then status i
      else if field = ''scenario_id'' then scenario_id i
      else if field = ''step_no'' then step_no i
      else [])"

datatype stop = Reply string | Raised pyerror

fun apply_fields :: "json_fields \<Rightarrow> string list \<Rightarrow> issue \<Rightarrow> stop + issue" where
  \<comment> \<open>the loop of \<open>update_issue\<close> over the field names; \<open>Inl (Reply msg)\<close> is the early
     return with its error message, \<open>Inl (Raised err)\<close> an exception of the loop body,
     \<open>Inr\<close> the session's object after the loop\<close>
  "apply_fields data [] i = Inr i"
| "apply_fields data (field # rest) i =
     (case data field of
        None \<Rightarrow> apply_fields data rest i
      | Some v \<Rightarrow>
          (case (if field = ''status'' then not_in_strs v ALLOWED_STATUS else Inr False) of
             Inl err \<Rightarrow> Inl (Raised err)
           | Inr True \<Rightarrow> Inl (Reply ''Invalid status'')
           | Inr False \<Rightarrow>
               (case or_empty_strip v of
                  Inl err \<Rightarrow> Inl (Raised err)
                | Inr t \<Rightarrow> apply_fields data rest (setattr i field t))))"

definition commit_row :: "issue \<Rightarrow> issue list \<Rightarrow> issue list" where
  \<comment> \<open>\<open>db.session.commit()\<close> after the changes to one loaded row\<close>
  "commit_row i rows = map (\<lambda>r. if id' r = id' i then i else r) rows"

definition update_issue :: "env \<Rightarrow> nat \<Rightarrow> json_fields \<Rightarrow> upload list \<Rightarrow> state \<Rightarrow> response \<times> state" where
  \<comment> \<open>an exception of the loop is answered 500; nothing was committed by then\<close>
  "update_issue e issue_id data new_files s =
     (case query_get (table s) issue_id of
        None \<Rightarrow> (NotFound, s)
      | Some issue \<Rightarrow>
          (case apply_fields data UPDATE_FIELDS issue of
             Inl (Reply msg) \<Rightarrow> ((400, error_json msg), s)
           | Inl (Raised err) \<Rightarrow> (ServerError, s)
           | Inr issue1 \<Rightarrow>
               if new_files \<noteq> [] then
                 (case save_attachments e new_files (disk s) of
                    (Inl err, fs') \<Rightarrow> (ServerError, s\<lparr>disk := fs'\<rparr>)
                  | (Inr names, fs') \<Rightarrow>
                      (let issue2 = issue1\<lparr>attachments := attachments issue1 @ names\<rparr>
                       in ((200, Json (JObj (to_dict issue2))),
                           \<lparr>table = commit_row issue2 (table s), disk = fs'\<rparr>)))
               else ((200, Json (JObj (to_dict issue1))),
                     s\<lparr>table := commit_row issue1 (table s)\<rparr>)))"

fun remove_each :: "env \<Rightarrow> string list \<Rightarrow> fsys \<Rightarrow> oserror option \<times> fsys" where
  \<comment> \<open>the loop of \<open>delete_issue\<close>: \<open>FileNotFoundError\<close> is passed over, any other error
     of \<open>os.remove\<close> leaves the loop\<close>
  "remove_each e [] fs = (None, fs)"
| "remove_each e (f # rest) fs =
     (case os_remove fs (os_path_join (UPLOAD_FOLDER e) f) of
        Inl FileNotFoundError \<Rightarrow> remove_each e rest fs
      | Inl err \<Rightarrow> (Some err, fs)
      | Inr fs' \<Rightarrow> remove_each e rest fs')"

definition delete_issue :: "env \<Rightarrow> nat \<Rightarrow> state \<Rightarrow> response \<times> state" where
  "delete_issue e issue_id s =
     (case query_get (table s) issue_id of
        None \<Rightarrow> (NotFound, s)
      | Some issue \<Rightarrow>
          (case remove_each e (attachments issue) (disk s) of
             (Some err, fs') \<Rightarrow> (ServerError, s\<lparr>disk := fs'\<rparr>)
           | (None, fs') \<Rightarrow>
               ((200, Json (JObj [(''message'', JStr ''Issue deleted'')])),
                \<lparr>table = filter (\<lambda>r. id' r \<noteq> issue_id) (table s), disk = fs'\<rparr>)))"

definition delete_attachment :: "env \<Rightarrow> nat \<Rightarrow> string \<Rightarrow> state \<Rightarrow> response \<times> state" where
  "delete_attachment e issue_id name s =
     (case query_get (table s) issue_id of
        None \<Rightarrow> (NotFound, s)
      | Some issue \<Rightarrow>
          if name \<in> set (attachments issue) then
            (let issue1 = issue\<lparr>attachments := remove1 name (attachments issue)\<rparr>;
                 rows = commit_row issue1 (table s)
             in case os_remove (disk s) (os_path_join (UPLOAD_FOLDER e) name) of
                  Inl FileNotFoundError \<Rightarrow> ((200, Json (JObj (to_dict issue1))), s\<lparr>table := rows\<rparr>)
                | Inl err \<Rightarrow> (ServerError, s\<lparr>table := rows\<rparr>)
                | Inr fs' \<Rightarrow> ((200, Json (JObj (to_dict issue1))), \<lparr>table = rows, disk = fs'\<rparr>))
          else ((200, Json (JObj (to_dict issue))), s))"

subsection \<open>Serving an upload\<close>

text \<open>
  \<open>send_from_directory\<close> is Flask's, on Werkzeug's \<open>safe_join\<close> and
  \<open>posixpath.normpath\<close>; the three are modelled after the library.
\<close>

fun norm_comps :: "bool \<Rightarrow> string list \<Rightarrow> string list \<Rightarrow> string list" where
  \<comment> \<open>the loop of \<open>normpath\<close> over the components; \<open>new\<close> is \<open>new_comps\<close>\<close>
  "norm_comps initial new [] = new"
| "norm_comps initial new (c # comps) =
     (if c = [] \<or> c = ''.'' then norm_comps initial new comps
      else if c \<noteq> ''..'' \<or> (\<not> initial \<and> new = []) \<or> (new \<noteq> [] \<and> last new = ''..'')
        then norm_comps initial (new @ [c]) comps
      else if new \<noteq> [] then norm_comps initial (butlast new) comps
      else norm_comps initial new comps)"

definition normpath :: "string \<Rightarrow> string" where
  "normpath path =
     (if path = [] then ''.''
      else
        (let initial_slashes =
               (if startswith path ''/'' then
                  (if startswith path ''//'' \<and> \<not> startswith path ''///'' then 2 else 1)
                else (0::nat));
             comps = norm_comps (initial_slashes \<noteq> 0) [] (split_sep CHR ''/'' path);
             p = replicate initial_slashes CHR ''/'' @ join_sep ''/'' comps
         in if p = [] then ''.'' else p))"

definition safe_join :: "string \<Rightarrow> string \<Rightarrow> string option" where
  "safe_join directory name =
     (let d = (if directory = [] then ''.'' else directory);
          n = (if name \<noteq> [] then normpath name else name)
      in if startswith n ''/'' \<or> n = ''..'' \<or> startswith n ''../'' then None
         else Some (os_path_join d n))"

definition send_file :: "fsys \<Rightarrow> string \<Rightarrow> response" where
  "send_file fs p =
     (case resolve fs p of
        Inl err \<Rightarrow> ServerError
      | Inr l \<Rightarrow> (case files fs l of None \<Rightarrow> ServerError | Some data \<Rightarrow> (200, FileContent data)))"

definition send_from_directory :: "env \<Rightarrow> fsys \<Rightarrow> string \<Rightarrow> string \<Rightarrow> response" where
  "send_from_directory e fs directory name =
     (case safe_join directory name of
        None \<Rightarrow> NotFound
      | Some p \<Rightarrow>
          (let path_str = os_path_join (root_path e) p
           in if \<not> os_path_isfile fs path_str then NotFound else send_file fs path_str))"

definition uploaded_file :: "env \<Rightarrow> string \<Rightarrow> state \<Rightarrow> response" where
  "uploaded_file e name s =
     (let safe_path = os_path_join (UPLOAD_FOLDER e) name
      in if \<not> os_path_isfile (disk s) safe_path then NotFound
         else send_from_directory e (disk s) (UPLOAD_FOLDER e) name)"

subsection \<open>The spreadsheet export\<close>

text \<open>
  \<open>pd.DataFrame(data)\<close> for a list of dicts takes as columns the keys of the dicts, in
  the order they first appear; a list with no dict has no column. \<open>to_excel\<close> with
  \<open>index=False\<close> writes one header cell per column in row 0 and the values below.
\<close>

fun union_keys :: "string list \<Rightarrow> (string \<times> json) list list \<Rightarrow> string list" where
  "union_keys seen [] = seen"
| "union_keys seen (d # ds) =
     union_keys (fold (\<lambda>k acc. if k \<in> set acc then acc else acc @ [k]) (map fst d) seen) ds"

definition DataFrame :: "(string \<times> json) list list \<Rightarrow> string list \<times> json list list" where
  "DataFrame data =
     (let columns = union_keys [] data
      in (columns,
          map (\<lambda>d. map (\<lambda>c. case map_of d c of None \<Rightarrow> JNull | Some v \<Rightarrow> v) columns) data))"

definition to_excel :: "string list \<times> json list list \<Rightarrow> string \<Rightarrow> string \<times> cell list" where
  "to_excel df sheet_name =
     (sheet_name,
      map (\<lambda>(j, c). ((0, j), JStr c)) (enumerate 0 (fst df)) @
      concat (map (\<lambda>(i, r). map (\<lambda>(j, v). ((Suc i, j), v)) (enumerate 0 r))
                (enumerate 0 (snd df))))"

definition export_row :: "issue \<Rightarrow> (string \<times> json) list" where
  \<comment> \<open>\<open>d = i.to_dict(); d["attachments"] = ", ".join(d["attachments"])\<close>\<close>
  "export_row i =
     map (\<lambda>(k, v). if k = ''attachments'' then (k, JStr (join_sep '', '' (attachments i)))
                    else (k, v))
       (to_dict i)"

definition download_issues :: "state \<Rightarrow> response" where
  "download_issues s =
     (let issues = order_by_id_desc (table s);
          data = map export_row issues;
          df = DataFrame data
      in (200, Workbook [to_excel df ''Issues'']))"

section \<open>Well-formed upload directories\<close>

text \<open>
  What the theorems about stored files assume of the disk: the upload folder resolves to a
  directory (\<open>os.makedirs\<close> at start-up creates it), and a stored name is a single path
  component, as the names \<open>save_attachments\<close> builds are.
\<close>

definition plain_name :: "string \<Rightarrow> bool" where
  "plain_name n = (n \<noteq> [] \<and> n \<noteq> ''.'' \<and> n \<noteq> ''..'' \<and> CHR ''/'' \<notin> set n)"

definition upload_dir :: "fsys \<Rightarrow> env \<Rightarrow> loc \<Rightarrow> bool" where
  "upload_dir fs e up =
     (resolve fs (UPLOAD_FOLDER e) = Inr up \<and> up \<in> dirs fs \<and> files fs up = None)"


section \<open>Sample inputs\<close>

text \<open>A deployment under \<open>/srv/app\<close> with an empty upload directory and no issue.\<close>

definition sample_env :: env where
  "sample_env =
     \<lparr>here = ''/srv/app'', root_path = ''/srv/app'',
      secure_filename = filter (\<lambda>c. c \<noteq> CHR ''/'' \<and> c \<noteq> CHR '' ''),
      uuid4 = (\<lambda>k. of_nat k),
      utcnow = ''2024-01-01T00:00:00''\<rparr>"

definition sample_fs :: fsys where
  "sample_fs =
     \<lparr>files = [[''srv'', ''app'', ''app.py''] \<mapsto> ''import os''],
      dirs = {[], [''srv''], [''srv'', ''app''], [''srv'', ''app'', ''uploads'']},
      cwd = [''srv'', ''app'']\<rparr>"

definition sample_state :: state where
  "sample_state = \<lparr>table = [], disk = sample_fs\<rparr>"

definition sample_issue :: issue where
  "sample_issue =
     \<lparr>id' = 1, track = ''AP'', summary = ''Login fails'', description = [],
      attachments = [], raised_by = ''ann'', assignee = [], status = ''Open'',
      scenario_id = [], step_no = [], created_at = ''2024-01-01T00:00:00''\<rparr>"

definition sample_state1 :: state where
  "sample_state1 = \<lparr>table = [sample_issue], disk = sample_fs\<rparr>"

definition png :: "string \<Rightarrow> upload" where
  "png n = \<lparr>filename = n @ ''.png'', content = n\<rparr>"

text \<open>
  The same deployment with one issue that lists two attachments; the first is on disk, the
  second is not.
\<close>

definition sample_issue2 :: issue where
  "sample_issue2 =
     sample_issue\<lparr>attachments := [''00000000000000000000000000000000_a.png'',
                                   ''00000000000000000000000000000001_b.png'']\<rparr>"

definition sample_state2 :: state where
  "sample_state2 =
     \<lparr>table = [sample_issue2],
      disk = sample_fs\<lparr>files := (files sample_fs)
               ([''srv'', ''app'', ''uploads'', ''00000000000000000000000000000000_a.png''] \<mapsto> ''a'')\<rparr>\<rparr>"

text \<open>A disk whose upload folder has a sub-directory with one file in it.\<close>

definition sample_state3 :: state where
  "sample_state3 =
     \<lparr>table = [],
      disk = \<lparr>files = [[''srv'', ''app'', ''app.py''] \<mapsto> ''import os'',
                       [''srv'', ''app'', ''uploads'', ''sub'', ''a.png''] \<mapsto> ''a''],
              dirs = {[], [''srv''], [''srv'', ''app''], [''srv'', ''app'', ''uploads''],
                      [''srv'', ''app'', ''uploads'', ''sub'']},
              cwd = [''srv'', ''app'']\<rparr>\<rparr>"

section \<open>Basic facts\<close>

lemma split_sep_not_Nil: "split_sep sep s \<noteq> []"
  by (induction s) (auto split: list.splits)

lemmas eval_defs = add_issue_def update_issue_def Let_def strip_def isspace_def py_or_def get_field_def
  ALLOWED_TRACKS_def ALLOWED_STATUS_def MAX_ATTACHMENTS_def save_attachments_def
  sample_env_def sample_state_def sample_fs_def sample_state1_def sample_issue_def
  next_id_def to_dict_def error_json_def query_get_def UPDATE_FIELDS_def setattr_def commit_row_def
  png_def not_in_strs_def or_empty_strip_def ServerError_def

lemma split_sep_append:
  "split_sep c (a @ c # b) = split_sep c a @ split_sep c b"
  using split_sep_not_Nil [of c]
  by (induction a) (auto split: list.splits)

lemma split_sep_no_sep: "c \<notin> set s \<Longrightarrow> split_sep c s = [s]"
  by (induction s) auto

lemma split_sep_parts: "w \<in> set (split_sep c s) \<Longrightarrow> c \<notin> set w"
  by (induction s arbitrary: w) (auto split: if_splits list.splits)

lemma walk_append:
  "walk fs cur (a @ b) = (case walk fs cur a of Inl err \<Rightarrow> Inl err | Inr l \<Rightarrow> walk fs l b)"
  by (induction a arbitrary: cur) auto

lemma walk_files_upd:
  "walk fs cur ss = Inr l \<Longrightarrow> p \<notin> dirs fs \<Longrightarrow> walk (fs\<lparr>files := (files fs)(p := v)\<rparr>) cur ss = Inr l"
  by (induction ss arbitrary: cur) (auto split: if_splits)

lemma UPLOAD_FOLDER_shape:
  "UPLOAD_FOLDER e \<noteq> []" "last (UPLOAD_FOLDER e) \<noteq> CHR ''/''"
  by (auto simp: UPLOAD_FOLDER_def os_path_join_def startswith_def)

lemma join_upload:
  "\<not> startswith n ''/'' \<Longrightarrow> os_path_join (UPLOAD_FOLDER e) n = UPLOAD_FOLDER e @ CHR ''/'' # n"
  using UPLOAD_FOLDER_shape [of e] by (simp add: os_path_join_def)

lemma resolve_join_upload:
  assumes "resolve fs (UPLOAD_FOLDER e) = Inr up" and "\<not> startswith n ''/''"
  shows "resolve fs (os_path_join (UPLOAD_FOLDER e) n) = walk fs up (split_sep CHR ''/'' n)"
  using assms UPLOAD_FOLDER_shape [of e]
  by (simp add: join_upload resolve_def split_sep_append walk_append hd_append)

lemma plain_not_abs: "plain_name n \<Longrightarrow> \<not> startswith n ''/''"
  by (cases n) (auto simp: plain_name_def startswith_def)

lemma resolve_plain:
  assumes "upload_dir fs e up" and "plain_name n"
  shows "resolve fs (os_path_join (UPLOAD_FOLDER e) n) = Inr (up @ [n])"
  using assms resolve_join_upload [of fs e up n] plain_not_abs [of n]
  by (auto simp: upload_dir_def plain_name_def split_sep_no_sep)

lemma upload_dir_files_upd:
  assumes "upload_dir fs e up" and "p \<notin> dirs fs"
  shows "upload_dir (fs\<lparr>files := (files fs)(p := v)\<rparr>) e up"
proof -
  have "p \<noteq> up" using assms by (auto simp: upload_dir_def)
  then show ?thesis
    using assms walk_files_upd [of fs _ _ up p v]
    by (auto simp: upload_dir_def resolve_def split: if_splits)
qed







lemma os_remove_plain:
  assumes "upload_dir fs e up" and "plain_name n" and "up @ [n] \<notin> dirs fs"
  shows "os_remove fs (os_path_join (UPLOAD_FOLDER e) n)
           = (if files fs (up @ [n]) \<noteq> None then Inr (fs\<lparr>files := (files fs)(up @ [n] := None)\<rparr>)
              else Inl FileNotFoundError)"
  using assms by (simp add: os_remove_def resolve_plain)


lemma remove_each_ok:
  assumes "upload_dir fs e up" and "\<forall>f \<in> set names. plain_name f \<and> up @ [f] \<notin> dirs fs"
  shows "fst (remove_each e names fs) = None \<and>
         dirs (snd (remove_each e names fs)) = dirs fs \<and>
         upload_dir (snd (remove_each e names fs)) e up \<and>
         (\<forall>f \<in> set names. files (snd (remove_each e names fs)) (up @ [f]) = None) \<and>
         (\<forall>p. files fs p = None \<longrightarrow> files (snd (remove_each e names fs)) p = None)"
  using assms
proof (induction names arbitrary: fs)
  case Nil
  then show ?case by simp
next
  case (Cons f rest)
  have pl: "plain_name f" and nd: "up @ [f] \<notin> dirs fs" using Cons.prems(2) by simp_all
  note rm = os_remove_plain [OF Cons.prems(1) pl nd]
  show ?case
  proof (cases "files fs (up @ [f]) = None")
    case True
    then have step: "remove_each e (f # rest) fs = remove_each e rest fs" using rm by simp
    from Cons.IH [OF Cons.prems(1)] Cons.prems(2) True show ?thesis unfolding step by auto
  next
    case False
    let ?fs1 = "fs\<lparr>files := (files fs)(up @ [f] := None)\<rparr>"
    have step: "remove_each e (f # rest) fs = remove_each e rest ?fs1" using rm False by simp
    have u1: "upload_dir ?fs1 e up" using upload_dir_files_upd [OF Cons.prems(1) nd] .
    have r1: "\<forall>g \<in> set rest. plain_name g \<and> up @ [g] \<notin> dirs ?fs1" using Cons.prems(2) by simp
    from Cons.IH [OF u1 r1] show ?thesis unfolding step by auto
  qed
qed




lemma query_get_deleted: "query_get (filter (\<lambda>r. id' r \<noteq> n) rows) n = None"
  by (induction rows) (auto simp: query_get_def)

lemma sample_upload_dir: "upload_dir sample_fs sample_env [''srv'', ''app'', ''uploads'']"
  by (simp add: upload_dir_def sample_fs_def sample_env_def UPLOAD_FOLDER_def os_path_join_def
      resolve_def startswith_def)

lemma norm_comps_inv:
  assumes "\<forall>c \<in> set new. c \<noteq> [] \<and> c \<noteq> ''.''"
    and "new \<noteq> [] \<and> hd new \<noteq> ''..'' \<longrightarrow> ''..'' \<notin> set new"
  shows "(\<forall>c \<in> set (norm_comps ini new cs). c \<noteq> [] \<and> c \<noteq> ''.'') \<and>
         (norm_comps ini new cs \<noteq> [] \<and> hd (norm_comps ini new cs) \<noteq> ''..''
            \<longrightarrow> ''..'' \<notin> set (norm_comps ini new cs)) \<and>
         set (norm_comps ini new cs) \<subseteq> set new \<union> set cs"
  using assms
proof (induction cs arbitrary: new)
  case Nil
  then show ?case by simp
next
  case (Cons c cs)
  show ?case
  proof (cases "c = [] \<or> c = ''.''")
    case True
    with Cons.IH [OF Cons.prems] show ?thesis by auto
  next
    case nodot: False
    show ?thesis
    proof (cases "c \<noteq> ''..'' \<or> (\<not> ini \<and> new = []) \<or> (new \<noteq> [] \<and> last new = ''..'')")
      case True
      have a: "\<forall>x \<in> set (new @ [c]). x \<noteq> [] \<and> x \<noteq> ''.''" using Cons.prems(1) nodot by auto
      have b: "new @ [c] \<noteq> [] \<and> hd (new @ [c]) \<noteq> ''..'' \<longrightarrow> ''..'' \<notin> set (new @ [c])"
      proof (cases "new = []")
        case True
        then show ?thesis by simp
      next
        case False
        then have hd: "hd (new @ [c]) = hd new" by simp
        show ?thesis
        proof (cases "hd new = ''..''")
          case True
          then show ?thesis using hd by simp
        next
          case nh: False
          then have "''..'' \<notin> set new" using Cons.prems(2) False by simp
          moreover have "last new \<in> set new" using False by simp
          ultimately have "last new \<noteq> ''..''" by metis
          then have "c \<noteq> ''..''" using True False by auto
          then show ?thesis using \<open>''..'' \<notin> set new\<close> by simp
        qed
      qed
      have step: "norm_comps ini new (c # cs) = norm_comps ini (new @ [c]) cs"
        using nodot True by simp
      from Cons.IH [OF a b] show ?thesis unfolding step by auto
    next
      case nopush: False
      show ?thesis
      proof (cases "new \<noteq> []")
        case True
        have a: "\<forall>x \<in> set (butlast new). x \<noteq> [] \<and> x \<noteq> ''.''"
          using Cons.prems(1) by (auto dest: in_set_butlastD)
        have b: "butlast new \<noteq> [] \<and> hd (butlast new) \<noteq> ''..'' \<longrightarrow> ''..'' \<notin> set (butlast new)"
        proof (intro impI, elim conjE)
          assume ne: "butlast new \<noteq> []" and h: "hd (butlast new) \<noteq> ''..''"
          obtain x xs where n: "new = x # xs" using True by (cases new) auto
          with ne have "xs \<noteq> []" by auto
          then have "hd (butlast new) = hd new" using n by simp
          then have "''..'' \<notin> set new" using Cons.prems(2) True h by simp
          then show "''..'' \<notin> set (butlast new)" by (auto dest: in_set_butlastD)
        qed
        have step: "norm_comps ini new (c # cs) = norm_comps ini (butlast new) cs"
          using nodot nopush True by simp
        from Cons.IH [OF a b] show ?thesis unfolding step by (auto dest: in_set_butlastD)
      next
        case False
        then have step: "norm_comps ini new (c # cs) = norm_comps ini new cs"
          using nodot nopush by simp
        from Cons.IH [OF Cons.prems] show ?thesis unfolding step by auto
      qed
    qed
  qed
qed

lemma normpath_abs: "startswith name ''/'' \<Longrightarrow> startswith (normpath name) ''/''"
  by (auto simp: normpath_def startswith_def Let_def)

lemma join_sep_dotdot:
  "join_sep ''/'' (''..'' # rest) = ''..'' \<or> startswith (join_sep ''/'' (''..'' # rest)) ''../''"
  by (cases rest) (simp_all add: startswith_def)

lemma split_join:
  "comps \<noteq> [] \<Longrightarrow> \<forall>c \<in> set comps. CHR ''/'' \<notin> set c
   \<Longrightarrow> split_sep CHR ''/'' (join_sep ''/'' comps) = comps"
proof (induction comps)
  case Nil
  then show ?case by simp
next
  case (Cons p ps)
  show ?case
  proof (cases ps)
    case Nil
    with Cons.prems show ?thesis by (simp add: split_sep_no_sep)
  next
    case (Cons q qs)
    have j: "join_sep ''/'' (p # ps) = p @ CHR ''/'' # join_sep ''/'' ps" using Cons by simp
    have "split_sep CHR ''/'' (join_sep ''/'' (p # ps))
            = split_sep CHR ''/'' p @ split_sep CHR ''/'' (join_sep ''/'' ps)"
      unfolding j by (rule split_sep_append)
    moreover have "split_sep CHR ''/'' p = [p]" using Cons.prems by (simp add: split_sep_no_sep)
    moreover have "split_sep CHR ''/'' (join_sep ''/'' ps) = ps"
      using Cons.IH Cons.prems Cons by simp
    ultimately show ?thesis by simp
  qed
qed

lemma walk_plain:
  "\<forall>c \<in> set ps. plain_name c \<Longrightarrow> walk fs cur ps = Inr l \<Longrightarrow> l = cur @ ps"
proof (induction ps arbitrary: cur)
  case Nil
  then show ?case by simp
next
  case (Cons c ps)
  then have pc: "c \<noteq> []" "c \<noteq> ''.''" "c \<noteq> ''..''" by (simp_all add: plain_name_def)
  from Cons.prems(2) have "walk fs (cur @ [c]) ps = Inr l"
    using pc by (simp split: if_splits)
  with Cons.IH [of "cur @ [c]"] Cons.prems(1) show ?case by simp
qed

lemma normpath_rel:
  assumes "name \<noteq> []" and "\<not> startswith (normpath name) ''/''"
    and "normpath name \<noteq> ''..''" and "\<not> startswith (normpath name) ''../''"
  shows "normpath name = ''.'' \<or>
         (\<exists>comps. comps \<noteq> [] \<and> (\<forall>c \<in> set comps. plain_name c) \<and>
                   normpath name = join_sep ''/'' comps)"
proof -
  let ?comps = "norm_comps False [] (split_sep CHR ''/'' name)"
  have rel: "\<not> startswith name ''/''" using assms(2) normpath_abs by blast
  then have np: "normpath name = (if join_sep ''/'' ?comps = [] then ''.'' else join_sep ''/'' ?comps)"
    using assms(1) by (simp add: normpath_def Let_def)
  from norm_comps_inv [of "[]" False "split_sep CHR ''/'' name"]
  have inv: "\<forall>c \<in> set ?comps. c \<noteq> [] \<and> c \<noteq> ''.''"
    "?comps \<noteq> [] \<and> hd ?comps \<noteq> ''..'' \<longrightarrow> ''..'' \<notin> set ?comps"
    "set ?comps \<subseteq> set (split_sep CHR ''/'' name)" by simp_all
  show ?thesis
  proof (cases "join_sep ''/'' ?comps = []")
    case True
    then show ?thesis using np by simp
  next
    case False
    then have n: "normpath name = join_sep ''/'' ?comps" using np by simp
    have ne: "?comps \<noteq> []" using False by auto
    have "hd ?comps \<noteq> ''..''"
    proof
      assume "hd ?comps = ''..''"
      then obtain rest where "?comps = ''..'' # rest" using ne by (cases ?comps) auto
      with join_sep_dotdot [of rest] n assms(3,4) show False by simp
    qed
    then have "''..'' \<notin> set ?comps" using inv(2) ne by simp
    moreover have "\<forall>c \<in> set ?comps. CHR ''/'' \<notin> set c"
      using inv(3) split_sep_parts [of _ "CHR ''/''" name] by blast
    ultimately have "\<forall>c \<in> set ?comps. plain_name c"
      using inv(1) by (auto simp: plain_name_def)
    with ne n show ?thesis by blast
  qed
qed

lemma UPLOAD_FOLDER_abs:
  "startswith (here e) ''/'' \<Longrightarrow> hd (UPLOAD_FOLDER e) = CHR ''/''"
  by (cases "here e") (auto simp: UPLOAD_FOLDER_def os_path_join_def startswith_def)

lemma resolve_under_upload:
  assumes "\<not> startswith n ''/''" and "resolve fs (os_path_join (UPLOAD_FOLDER e) n) = Inr l"
  shows "\<exists>up. resolve fs (UPLOAD_FOLDER e) = Inr up \<and> walk fs up (split_sep CHR ''/'' n) = Inr l"
proof (cases "resolve fs (UPLOAD_FOLDER e)")
  case (Inl err)
  then have "resolve fs (os_path_join (UPLOAD_FOLDER e) n) = Inl err"
    using assms(1) UPLOAD_FOLDER_shape [of e]
    by (simp add: join_upload resolve_def split_sep_append walk_append hd_append)
  with assms(2) show ?thesis by simp
next
  case (Inr up)
  with resolve_join_upload [OF Inr assms(1)] assms(2) show ?thesis by simp
qed

lemma walk_first:
  "walk fs cur (c # cs) = Inr l \<Longrightarrow> files fs cur = None"
  by (auto split: if_splits)

lemma send_from_upload:
  assumes "startswith (here e) ''/''"
  shows "send_from_directory e fs (UPLOAD_FOLDER e) name = NotFound \<or>
         (\<exists>up l data. resolve fs (UPLOAD_FOLDER e) = Inr up \<and> strict_prefix up l \<and>
            files fs l = Some data \<and>
            send_from_directory e fs (UPLOAD_FOLDER e) name = (200, FileContent data))"
proof (cases "safe_join (UPLOAD_FOLDER e) name")
  case None
  then show ?thesis by (simp add: send_from_directory_def)
next
  case (Some p)
  let ?n = "if name \<noteq> [] then normpath name else name"
  from Some have ok: "\<not> startswith ?n ''/''" "?n \<noteq> ''..''" "\<not> startswith ?n ''../''"
    and p: "p = os_path_join (UPLOAD_FOLDER e) ?n"
    using UPLOAD_FOLDER_shape(1) [of e]
    by (auto simp: safe_join_def Let_def split: if_splits)
  have pj: "p = UPLOAD_FOLDER e @ CHR ''/'' # ?n" using p join_upload [OF ok(1)] by simp
  have "startswith p ''/''"
    using UPLOAD_FOLDER_abs [OF assms] UPLOAD_FOLDER_shape(1) [of e] pj
    by (cases "UPLOAD_FOLDER e") (auto simp: startswith_def)
  then have ps: "os_path_join (root_path e) p = p" by (simp add: os_path_join_def)
  show ?thesis
  proof (cases "os_path_isfile fs p")
    case False
    then show ?thesis using Some ps by (simp add: send_from_directory_def)
  next
    case True
    then obtain l data where l: "resolve fs p = Inr l" "files fs l = Some data"
      by (auto simp: os_path_isfile_def split: sum.splits)
    then have sent: "send_from_directory e fs (UPLOAD_FOLDER e) name = (200, FileContent data)"
      using Some ps True by (simp add: send_from_directory_def send_file_def)
    from resolve_under_upload [OF ok(1) l(1) [unfolded p]]
    obtain up where up: "resolve fs (UPLOAD_FOLDER e) = Inr up"
      "walk fs up (split_sep CHR ''/'' ?n) = Inr l" by blast
    obtain c cs where sp: "split_sep CHR ''/'' ?n = c # cs"
      using split_sep_not_Nil [of "CHR ''/''" ?n] by (cases "split_sep CHR ''/'' ?n") auto
    have upfree: "files fs up = None" using up(2) sp walk_first by metis
    have "strict_prefix up l"
    proof (cases "name = []")
      case True
      then have "l = up" using up(2) by (auto split: if_splits)
      with upfree l(2) show ?thesis by simp
    next
      case False
      with ok have ok': "\<not> startswith (normpath name) ''/''" "normpath name \<noteq> ''..''"
        "\<not> startswith (normpath name) ''../''" by simp_all
      from normpath_rel [OF False ok'] show ?thesis
      proof
        assume "normpath name = ''.''"
        then have "l = up" using up(2) False by (auto split: if_splits)
        with upfree l(2) show ?thesis by simp
      next
        assume "\<exists>comps. comps \<noteq> [] \<and> (\<forall>c \<in> set comps. plain_name c) \<and>
                   normpath name = join_sep ''/'' comps"
        then obtain comps where c: "comps \<noteq> []" "\<forall>c \<in> set comps. plain_name c"
          "normpath name = join_sep ''/'' comps" by blast
        have "split_sep CHR ''/'' (normpath name) = comps"
          using c split_join [of comps] by (simp add: plain_name_def)
        then have "walk fs up comps = Inr l" using up(2) False by simp
        from walk_plain [OF c(2) this] c(1) show ?thesis by (simp add: strict_prefix_def)
      qed
    qed
    with up(1) l(2) sent show ?thesis by blast
  qed
qed

lemma sample_nested:
  "uploaded_file sample_env ''sub/a.png'' sample_state3 = (200, FileContent ''a'')"
  by code_simp

lemma sample_traversal:
  "os_path_isfile (disk sample_state3) (os_path_join (UPLOAD_FOLDER sample_env) ''../app.py'') \<and>
   uploaded_file sample_env ''../app.py'' sample_state3 = NotFound"
  by code_simp


lemma getattr_setattr_other: "f \<noteq> g \<Longrightarrow> getattr (setattr i g v) f = getattr i f"
  by (auto simp: getattr_def setattr_def)

lemma setattr_keeps:
  "id' (setattr i g v) = id' i" "attachments (setattr i g v) = attachments i"
  "created_at (setattr i g v) = created_at i"
  by (simp_all add: setattr_def)

lemma apply_fields_frame:
  "apply_fields data flds i = Inr i' \<Longrightarrow>
     id' i' = id' i \<and> attachments i' = attachments i \<and> created_at i' = created_at i \<and>
     (\<forall>f. data f = None \<longrightarrow> getattr i' f = getattr i f)"
proof (induction flds arbitrary: i)
  case Nil
  then show ?case by simp
next
  case (Cons g flds)
  show ?case
  proof (cases "data g")
    case None
    with Cons show ?thesis by simp
  next
    case (Some v)
    with Cons.prems obtain t where step: "apply_fields data flds (setattr i g t) = Inr i'"
      by (auto split: if_splits sum.splits bool.splits)
    have "\<And>f. data f = None \<Longrightarrow> f \<noteq> g" using Some by auto
    with Cons.IH [OF step] show ?thesis
      by (simp add: setattr_keeps getattr_setattr_other)
  qed
qed

lemma query_get_commit_row:
  "query_get rows n = Some i \<Longrightarrow> id' j = n \<Longrightarrow> query_get (commit_row j rows) n = Some j"
  by (induction rows) (auto simp: query_get_def commit_row_def split: if_splits)

lemma query_get_id: "query_get rows n = Some i \<Longrightarrow> id' i = n"
  by (induction rows) (auto simp: query_get_def split: if_splits)

section \<open>Creating an issue\<close>

text \<open>
  C3. A create request with more than five attachment files is answered 400 with an error
  message, and the state after it is the state before it: no file is written and no row
  is added, whatever the other fields are.
\<close>

theorem create_rejects_more_than_five:
  "length fls > MAX_ATTACHMENTS \<Longrightarrow> \<exists>msg. add_issue e data fls s = ((400, error_json msg), s)"
  by (auto simp: add_issue_def Let_def)

theorem create_rejects_more_than_five_witness:
  "length (map png [''a'', ''b'', ''c'', ''d'', ''e'', ''f'']) > MAX_ATTACHMENTS \<and>
   (\<exists>msg. add_issue sample_env [''track'' \<mapsto> Some ''AP'', ''summary'' \<mapsto> Some ''Login fails'']
       (map png [''a'', ''b'', ''c'', ''d'', ''e'', ''f'']) sample_state = ((400, error_json msg), sample_state))"
  using create_rejects_more_than_five [of "map png [''a'', ''b'', ''c'', ''d'', ''e'', ''f'']" sample_env
      "[''track'' \<mapsto> Some ''AP'', ''summary'' \<mapsto> Some ''Login fails'']" sample_state]
  by (simp add: MAX_ATTACHMENTS_def)

text \<open>
  C5. A create request whose \<open>track\<close>, once the surrounding whitespace is stripped, is not
  one of the allowed tracks is answered 400 with the message "Invalid track", and the state
  after it is the state before it: no row is added and no file is written, whatever files
  came with the request. (The handler strips the value before it looks it up.)
\<close>

theorem create_invalid_track_rejected:
  "strip (py_or (get_field data ''track'') []) \<notin> ALLOWED_TRACKS
   \<Longrightarrow> add_issue e data fls s = ((400, error_json ''Invalid track''), s)"
  by (simp add: add_issue_def Let_def)

theorem create_invalid_track_rejected_witness:
  "strip (py_or (get_field [''track'' \<mapsto> Some ''QA'', ''summary'' \<mapsto> Some ''Login fails''] ''track'') [])
     \<notin> ALLOWED_TRACKS \<and>
   add_issue sample_env [''track'' \<mapsto> Some ''QA'', ''summary'' \<mapsto> Some ''Login fails''] [png ''a'']
     sample_state = ((400, error_json ''Invalid track''), sample_state)"
proof -
  have a: "strip (py_or (get_field [''track'' \<mapsto> Some ''QA'', ''summary'' \<mapsto> Some ''Login fails''] ''track'') [])
     \<notin> ALLOWED_TRACKS"
    by (simp add: strip_def isspace_def py_or_def get_field_def ALLOWED_TRACKS_def)
  show ?thesis
    using a create_invalid_track_rejected [OF a, of sample_env "[png ''a'']" sample_state] by simp
qed

text \<open>
  The value \<open>" AP "\<close> is not an allowed track, and a create request that carries it is
  answered 201: the row is stored with the track \<open>"AP"\<close>.
\<close>

theorem create_padded_track_counterexample:
  "'' AP '' \<notin> ALLOWED_TRACKS \<and>
   add_issue sample_env [''track'' \<mapsto> Some '' AP '', ''summary'' \<mapsto> Some ''Login fails''] [] sample_state
     = ((201, Json (JObj (to_dict (sample_issue\<lparr>raised_by := []\<rparr>)))),
        \<lparr>table = [sample_issue\<lparr>raised_by := []\<rparr>], disk = sample_fs\<rparr>)"
  by (simp add: eval_defs)




section \<open>Updating an issue\<close>




text \<open>
  C6. An update of an existing issue that carries no file leaves every field it does not
  carry as it was in the stored row: the eight fields of the loop (read by \<open>getattr\<close>),
  and \<open>id\<close>, \<open>attachments\<close> and \<open>created_at\<close>, which no update assigns. The files on
  disk are untouched. This holds whether the update is committed, answered 400 or ends in
  500.
\<close>

theorem partial_update_frame:
  assumes "query_get (table s) n = Some i"
  shows "\<exists>i'. query_get (table (snd (update_issue e n data [] s))) n = Some i' \<and>
           id' i' = id' i \<and> attachments i' = attachments i \<and> created_at i' = created_at i \<and>
           (\<forall>f. data f = None \<longrightarrow> getattr i' f = getattr i f) \<and>
           disk (snd (update_issue e n data [] s)) = disk s"
proof (cases "apply_fields data UPDATE_FIELDS i")
  case (Inl st)
  with assms show ?thesis by (cases st) (simp_all add: update_issue_def)
next
  case (Inr i1)
  from apply_fields_frame [OF Inr] have fr:
    "id' i1 = id' i" "attachments i1 = attachments i" "created_at i1 = created_at i"
    "\<forall>f. data f = None \<longrightarrow> getattr i1 f = getattr i f" by simp_all
  have "id' i1 = n" using fr(1) query_get_id [OF assms] by simp
  from query_get_commit_row [OF assms this]
  have "query_get (table (snd (update_issue e n data [] s))) n = Some i1"
    using assms Inr by (simp add: update_issue_def)
  moreover have "disk (snd (update_issue e n data [] s)) = disk s"
    using assms Inr by (simp add: update_issue_def)
  ultimately show ?thesis using fr by blast
qed

theorem partial_update_frame_witness:
  "query_get (table sample_state1) 1 = Some sample_issue \<and>
   (\<exists>i'. query_get (table (snd (update_issue sample_env 1 [''assignee'' \<mapsto> JStr ''bob''] []
             sample_state1))) 1 = Some i' \<and>
         summary i' = ''Login fails'' \<and> track i' = ''AP'' \<and> status i' = ''Open'' \<and>
         attachments i' = [] \<and> created_at i' = ''2024-01-01T00:00:00'')"
proof -
  have a: "query_get (table sample_state1) 1 = Some sample_issue"
    by (simp add: query_get_def sample_state1_def sample_issue_def)
  from partial_update_frame [OF a, of sample_env "[''assignee'' \<mapsto> JStr ''bob'']"]
  obtain i' where i':
    "query_get (table (snd (update_issue sample_env 1 [''assignee'' \<mapsto> JStr ''bob''] []
        sample_state1))) 1 = Some i'"
    "attachments i' = attachments sample_issue" "created_at i' = created_at sample_issue"
    "\<forall>f. [''assignee'' \<mapsto> JStr ''bob''] f = None \<longrightarrow> getattr i' f = getattr sample_issue f"
    by blast
  have "getattr i' ''summary'' = getattr sample_issue ''summary''"
    "getattr i' ''track'' = getattr sample_issue ''track''"
    "getattr i' ''status'' = getattr sample_issue ''status''"
    using i'(4) by simp_all
  then have "summary i' = ''Login fails''" "track i' = ''AP''" "status i' = ''Open''"
    by (simp_all add: getattr_def sample_issue_def)
  with a i' show ?thesis by (auto simp: sample_issue_def)
qed

text \<open>
  C10. \<open>save_attachments\<close> looks at the first five entries of its list only: its result and
  its effect on the disk are those of the truncated list, and so is the whole update that
  calls it. A file at position six or later is therefore never saved; when one of the
  first five is skipped, fewer than five are stored although five would pass: of an entry
  with an empty name followed by five png files, four are stored.
\<close>

theorem save_attachments_first_five:
  "save_attachments e fls fs = save_attachments e (take MAX_ATTACHMENTS fls) fs \<and>
   update_issue e n data fls s = update_issue e n data (take MAX_ATTACHMENTS fls) s \<and>
   fst (save_attachments sample_env
          (\<lparr>filename = [], content = ''x''\<rparr> # map png [''a'', ''b'', ''c'', ''d'', ''e'']) sample_fs)
     = Inr [''00000000000000000000000000000000_a.png'', ''00000000000000000000000000000001_b.png'',
            ''00000000000000000000000000000002_c.png'', ''00000000000000000000000000000003_d.png'']"
proof -
  have a: "\<And>fs. save_attachments e (take MAX_ATTACHMENTS fls) fs = save_attachments e fls fs"
    by (simp add: save_attachments_def)
  have b: "(take MAX_ATTACHMENTS fls = []) = (fls = [])"
    by (cases fls) (simp_all add: MAX_ATTACHMENTS_def)
  have c: "update_issue e n data fls s = update_issue e n data (take MAX_ATTACHMENTS fls) s"
    unfolding update_issue_def a b by simp
  have d: "fst (save_attachments sample_env
          (\<lparr>filename = [], content = ''x''\<rparr> # map png [''a'', ''b'', ''c'', ''d'', ''e'']) sample_fs)
     = Inr [''00000000000000000000000000000000_a.png'', ''00000000000000000000000000000001_b.png'',
            ''00000000000000000000000000000002_c.png'', ''00000000000000000000000000000003_d.png'']"
    by code_simp
  show ?thesis using a c d by simp
qed

text \<open>
  C1. The track of a stored issue does not stay within the allowed tracks: \<open>update_issue\<close>
  checks \<open>status\<close> only, so an update that carries \<open>track = "XYZ"\<close> is committed. The
  state below is reached from the empty table by one create and one update.
\<close>

theorem update_stores_unlisted_track:
  "map track (table (snd (update_issue sample_env 1 [''track'' \<mapsto> JStr ''XYZ''] []
      (snd (add_issue sample_env [''track'' \<mapsto> Some ''AP'', ''summary'' \<mapsto> Some ''Login fails''] []
         sample_state))))) = [''XYZ'']
   \<and> ''XYZ'' \<notin> ALLOWED_TRACKS"
  by (simp add: eval_defs)

section \<open>Deleting an issue\<close>

text \<open>
  C7. Deleting an existing issue, on a disk whose upload folder is a directory and whose
  attachment names are single path components that name no directory (as the names
  \<open>save_attachments\<close> stores are): the answer is 200, the row is gone, and afterwards no
  name of its attachment list is a file in the upload folder, so that \<open>uploaded_file\<close>
  answers 404 for each. Nothing is assumed about the files being there before: a name
  without a file is passed over.
\<close>

theorem delete_issue_removes_files:
  assumes "query_get (table s) n = Some i" and "upload_dir (disk s) e up"
    and "\<forall>f \<in> set (attachments i). plain_name f \<and> up @ [f] \<notin> dirs (disk s)"
  shows "\<exists>s'. delete_issue e n s = ((200, Json (JObj [(''message'', JStr ''Issue deleted'')])), s') \<and>
           query_get (table s') n = None \<and>
           (\<forall>f \<in> set (attachments i).
               files (disk s') (up @ [f]) = None \<and> uploaded_file e f s' = NotFound)"
proof -
  let ?r = "remove_each e (attachments i) (disk s)"
  from remove_each_ok [OF assms(2,3)]
  have ok: "fst ?r = None" "upload_dir (snd ?r) e up"
    "\<forall>f \<in> set (attachments i). files (snd ?r) (up @ [f]) = None" by simp_all
  obtain fs' where r: "?r = (None, fs')" using ok(1) by (cases ?r) auto
  let ?s' = "\<lparr>table = filter (\<lambda>r. id' r \<noteq> n) (table s), disk = fs'\<rparr>"
  have del: "delete_issue e n s = ((200, Json (JObj [(''message'', JStr ''Issue deleted'')])), ?s')"
    using assms(1) r by (simp add: delete_issue_def)
  have gone: "\<forall>f \<in> set (attachments i). files fs' (up @ [f]) = None \<and> uploaded_file e f ?s' = NotFound"
  proof
    fix f assume f: "f \<in> set (attachments i)"
    then have pl: "plain_name f" using assms(3) by simp
    have u: "upload_dir fs' e up" using ok(2) r by simp
    have none: "files fs' (up @ [f]) = None" using ok(3) r f by simp
    have "\<not> os_path_isfile fs' (os_path_join (UPLOAD_FOLDER e) f)"
      using resolve_plain [OF u pl] none by (simp add: os_path_isfile_def)
    then show "files fs' (up @ [f]) = None \<and> uploaded_file e f ?s' = NotFound"
      using none by (simp add: uploaded_file_def Let_def)
  qed
  show ?thesis using del gone query_get_deleted [of n "table s"] by auto
qed

theorem delete_issue_removes_files_witness:
  "query_get (table sample_state2) 1 = Some sample_issue2 \<and>
   upload_dir (disk sample_state2) sample_env [''srv'', ''app'', ''uploads''] \<and>
   plain_name ''00000000000000000000000000000000_a.png'' \<and>
   plain_name ''00000000000000000000000000000001_b.png'' \<and>
   [''srv'', ''app'', ''uploads'', ''00000000000000000000000000000000_a.png''] \<notin> dirs (disk sample_state2) \<and>
   [''srv'', ''app'', ''uploads'', ''00000000000000000000000000000001_b.png''] \<notin> dirs (disk sample_state2) \<and>
   files (disk sample_state2) [''srv'', ''app'', ''uploads'', ''00000000000000000000000000000000_a.png''] = Some ''a'' \<and>
   files (disk sample_state2) [''srv'', ''app'', ''uploads'', ''00000000000000000000000000000001_b.png''] = None \<and>
   (\<exists>s'. delete_issue sample_env 1 sample_state2
            = ((200, Json (JObj [(''message'', JStr ''Issue deleted'')])), s') \<and>
         query_get (table s') 1 = None \<and>
         files (disk s') [''srv'', ''app'', ''uploads'', ''00000000000000000000000000000000_a.png''] = None \<and>
         uploaded_file sample_env ''00000000000000000000000000000000_a.png'' s' = NotFound \<and>
         files (disk s') [''srv'', ''app'', ''uploads'', ''00000000000000000000000000000001_b.png''] = None \<and>
         uploaded_file sample_env ''00000000000000000000000000000001_b.png'' s' = NotFound)"
proof -
  let ?up = "[''srv'', ''app'', ''uploads'']"
  let ?a = "''00000000000000000000000000000000_a.png''"
  let ?b = "''00000000000000000000000000000001_b.png''"
  have h1: "query_get (table sample_state2) 1 = Some sample_issue2"
    by (simp add: query_get_def sample_state2_def sample_issue2_def sample_issue_def)
  have nd: "?up @ [?a] \<notin> dirs sample_fs" by (simp add: sample_fs_def)
  have h2: "upload_dir (disk sample_state2) sample_env ?up"
    using upload_dir_files_upd [OF sample_upload_dir nd, of "Some ''a''"]
    by (simp add: sample_state2_def)
  have pa: "plain_name ?a" and pb: "plain_name ?b" by (simp_all add: plain_name_def)
  have da: "?up @ [?a] \<notin> dirs (disk sample_state2)" and db: "?up @ [?b] \<notin> dirs (disk sample_state2)"
    by (simp_all add: sample_state2_def sample_fs_def)
  have h3: "\<forall>f \<in> set (attachments sample_issue2). plain_name f \<and> ?up @ [f] \<notin> dirs (disk sample_state2)"
    using pa pb da db by (simp add: sample_issue2_def)
  have fa: "files (disk sample_state2) (?up @ [?a]) = Some ''a''"
    and fb: "files (disk sample_state2) (?up @ [?b]) = None"
    by (simp_all add: sample_state2_def sample_fs_def)
  from delete_issue_removes_files
    [where s = sample_state2 and n = 1 and i = sample_issue2 and e = sample_env and up = ?up,
     OF h1 h2 h3]
  obtain s' where r:
    "delete_issue sample_env 1 sample_state2
       = ((200, Json (JObj [(''message'', JStr ''Issue deleted'')])), s')"
    "query_get (table s') 1 = None"
    "\<forall>f \<in> set (attachments sample_issue2).
        files (disk s') (?up @ [f]) = None \<and> uploaded_file sample_env f s' = NotFound"
    by blast
  from r(3) have
    "files (disk s') (?up @ [?a]) = None" "uploaded_file sample_env ?a s' = NotFound"
    "files (disk s') (?up @ [?b]) = None" "uploaded_file sample_env ?b s' = NotFound"
    by (simp_all add: sample_issue2_def)
  with r(1,2) have "\<exists>s'. delete_issue sample_env 1 sample_state2
            = ((200, Json (JObj [(''message'', JStr ''Issue deleted'')])), s') \<and>
         query_get (table s') 1 = None \<and>
         files (disk s') (?up @ [?a]) = None \<and> uploaded_file sample_env ?a s' = NotFound \<and>
         files (disk s') (?up @ [?b]) = None \<and> uploaded_file sample_env ?b s' = NotFound"
    by blast
  with h1 h2 pa pb da db fa fb show ?thesis by simp
qed

section \<open>Serving an upload\<close>

text \<open>
  C9. With \<open>app.py\<close> in an absolute directory, \<open>uploaded_file\<close> answers 404 or sends the
  content of a regular file whose location lies strictly below the upload folder, whatever
  the name is: no name reads a file outside the upload folder. A name that resolves to no
  regular file is answered 404. The name is read as a relative path, component by
  component, so it may lead into a sub-directory of the upload folder.
\<close>

theorem uploaded_file_confined:
  assumes "startswith (here e) ''/''"
  shows "(uploaded_file e name s = NotFound \<or>
          (\<exists>up l data. resolve (disk s) (UPLOAD_FOLDER e) = Inr up \<and> strict_prefix up l \<and>
             files (disk s) l = Some data \<and>
             uploaded_file e name s = (200, FileContent data))) \<and>
         ((\<forall>l. resolve (disk s) (os_path_join (UPLOAD_FOLDER e) name) = Inr l
                \<longrightarrow> files (disk s) l = None)
            \<longrightarrow> uploaded_file e name s = NotFound)"
proof
  show "uploaded_file e name s = NotFound \<or>
          (\<exists>up l data. resolve (disk s) (UPLOAD_FOLDER e) = Inr up \<and> strict_prefix up l \<and>
             files (disk s) l = Some data \<and>
             uploaded_file e name s = (200, FileContent data))"
    using send_from_upload [OF assms, of "disk s" name]
    by (cases "os_path_isfile (disk s) (os_path_join (UPLOAD_FOLDER e) name)")
       (simp_all add: uploaded_file_def Let_def)
next
  show "(\<forall>l. resolve (disk s) (os_path_join (UPLOAD_FOLDER e) name) = Inr l
                \<longrightarrow> files (disk s) l = None)
            \<longrightarrow> uploaded_file e name s = NotFound"
    by (auto simp: uploaded_file_def Let_def os_path_isfile_def split: sum.splits)
qed

theorem uploaded_file_confined_witness:
  "startswith (here sample_env) ''/'' \<and>
   (\<exists>l data. strict_prefix [''srv'', ''app'', ''uploads''] l \<and>
              files (disk sample_state3) l = Some data \<and>
              uploaded_file sample_env ''sub/a.png'' sample_state3 = (200, FileContent data)) \<and>
   uploaded_file sample_env ''missing.png'' sample_state3 = NotFound"
proof -
  have h: "startswith (here sample_env) ''/''" by (simp add: sample_env_def startswith_def)
  have r: "resolve (disk sample_state3) (UPLOAD_FOLDER sample_env) = Inr [''srv'', ''app'', ''uploads'']"
    by code_simp
  have nn: "uploaded_file sample_env ''sub/a.png'' sample_state3 \<noteq> NotFound"
    using sample_nested by (simp add: NotFound_def)
  from uploaded_file_confined [OF h, of "''sub/a.png''" sample_state3] nn
  obtain up l data where u: "resolve (disk sample_state3) (UPLOAD_FOLDER sample_env) = Inr up"
    "strict_prefix up l" "files (disk sample_state3) l = Some data"
    "uploaded_file sample_env ''sub/a.png'' sample_state3 = (200, FileContent data)"
    by blast
  from u(1) r have "up = [''srv'', ''app'', ''uploads'']" by simp
  with u have a: "\<exists>l data. strict_prefix [''srv'', ''app'', ''uploads''] l \<and>
              files (disk sample_state3) l = Some data \<and>
              uploaded_file sample_env ''sub/a.png'' sample_state3 = (200, FileContent data)"
    by blast
  have m: "resolve (disk sample_state3) (os_path_join (UPLOAD_FOLDER sample_env) ''missing.png'')
             = Inr [''srv'', ''app'', ''uploads'', ''missing.png'']"
    by code_simp
  have "files (disk sample_state3) [''srv'', ''app'', ''uploads'', ''missing.png''] = None"
    by (simp add: sample_state3_def)
  with m have "\<forall>l. resolve (disk sample_state3) (os_path_join (UPLOAD_FOLDER sample_env) ''missing.png'') = Inr l
                 \<longrightarrow> files (disk sample_state3) l = None" by simp
  with uploaded_file_confined [OF h, of "''missing.png''" sample_state3]
  have b: "uploaded_file sample_env ''missing.png'' sample_state3 = NotFound" by blast
  from h a b show ?thesis by blast
qed

text \<open>
  The name \<open>sub/a.png\<close> is not a single path segment; it is read as a nested path and the
  file \<open>a.png\<close> of the sub-directory \<open>sub\<close> of the upload folder is sent.
\<close>

theorem uploaded_file_nested_counterexample:
  "CHR ''/'' \<in> set ''sub/a.png'' \<and>
   files (disk sample_state3) [''srv'', ''app'', ''uploads'', ''sub'', ''a.png''] = Some ''a'' \<and>
   uploaded_file sample_env ''sub/a.png'' sample_state3 = (200, FileContent ''a'')"
  using sample_nested by (simp add: sample_state3_def)

section \<open>The spreadsheet export\<close>

text \<open>With one row in the table, row 0 of the sheet holds the eleven field names.\<close>

lemma export_one_row_header:
  "\<exists>cells. download_issues sample_state1 = (200, Workbook [(''Issues'', cells)]) \<and>
     map snd (filter (\<lambda>c. fst (fst c) = 0) cells)
       = map JStr [''id'', ''track'', ''summary'', ''description'', ''attachments'', ''raised_by'',
                   ''assignee'', ''status'', ''scenario_id'', ''step_no'', ''created_at'']"
  by (simp add: download_issues_def order_by_id_desc_def DataFrame_def to_excel_def
      sample_state1_def sample_issue_def export_row_def to_dict_def Let_def)

text \<open>
  C8. With an empty table the export is a workbook with the one sheet "Issues", and the
  sheet has no cell at all: the columns of the data frame are taken from the keys of the
  rows, so without a row the header row of field names is missing too.
\<close>

theorem export_empty_table:
  "table s = [] \<Longrightarrow> download_issues s = (200, Workbook [(''Issues'', [])])"
  by (simp add: download_issues_def order_by_id_desc_def DataFrame_def to_excel_def)

theorem export_empty_table_witness:
  "table sample_state = [] \<and> download_issues sample_state = (200, Workbook [(''Issues'', [])])"
  using export_empty_table [of sample_state] by (simp add: sample_state_def)

end
